theory Spec2Isabelle
  imports Complex_Main "HOL-Library.Word"
begin

unbundle bit_operations_syntax

section \<open>JavaScript numbers\<close>

text \<open>
  The arithmetic of \<^verbatim>\<open>src/App.jsx\<close> runs on JavaScript numbers. A finite number is
  idealised as a real (rounding is not modelled); the three special values that a
  division by zero produces are kept apart, because \<^verbatim>\<open>getXpProgress\<close> can divide by
  zero.
\<close>

datatype jsnum = Num real | PosInf | NegInf | NaN

text \<open>\<^verbatim>\<open>a / b\<close> on two finite numbers; the divisors met here are never \<^verbatim>\<open>-0\<close>.\<close>

definition js_div :: "real \<Rightarrow> real \<Rightarrow> jsnum" where
  "js_div a b =
     (if b \<noteq> 0 then Num (a / b)
      else if a > 0 then PosInf
      else if a < 0 then NegInf
      else NaN)"

text \<open>\<^verbatim>\<open>x * c\<close> for a finite constant \<^verbatim>\<open>c > 0\<close>.\<close>

definition js_times_pos :: "jsnum \<Rightarrow> real \<Rightarrow> jsnum" where
  "js_times_pos x c = (case x of Num r \<Rightarrow> Num (r * c) | PosInf \<Rightarrow> PosInf | NegInf \<Rightarrow> NegInf | NaN \<Rightarrow> NaN)"

text \<open>\<^verbatim>\<open>Math.min(x, c)\<close> for a finite \<^verbatim>\<open>c\<close>: \<^verbatim>\<open>NaN\<close> if \<^verbatim>\<open>x\<close> is \<^verbatim>\<open>NaN\<close>.\<close>

definition Math_min :: "jsnum \<Rightarrow> real \<Rightarrow> jsnum" where
  "Math_min x c = (case x of Num r \<Rightarrow> Num (min r c) | PosInf \<Rightarrow> Num c | NegInf \<Rightarrow> NegInf | NaN \<Rightarrow> NaN)"

text \<open>\<^verbatim>\<open>xs[i]\<close>: \<^verbatim>\<open>undefined\<close> (here \<open>None\<close>) when the index is out of range.\<close>

definition js_index :: "'a list \<Rightarrow> nat \<Rightarrow> 'a option" where
  "js_index xs i = (if i < length xs then Some (xs ! i) else None)"

text \<open>\<^verbatim>\<open>v || d\<close> on a number or \<^verbatim>\<open>undefined\<close>: \<^verbatim>\<open>undefined\<close> and \<^verbatim>\<open>0\<close> are falsy.\<close>

definition js_or :: "real option \<Rightarrow> real \<Rightarrow> real" where
  "js_or v d = (case v of None \<Rightarrow> d | Some x \<Rightarrow> if x = 0 then d else x)"

section \<open>Levels\<close>

definition LEVEL_XP :: "real list" where
  "LEVEL_XP = [0, 100, 250, 500, 1000, 1750, 2750, 4000, 5500, 7500, 10000]"

text \<open>
  \<^verbatim>\<open>for (let i = LEVEL_XP.length-1; i >= 0; i--) if (xp >= LEVEL_XP[i]) return i+1; return 1\<close>.
  The counter of \<open>getLevel_loop\<close> is \<^verbatim>\<open>i + 1\<close>.
\<close>

fun getLevel_loop :: "real \<Rightarrow> nat \<Rightarrow> nat" where
  "getLevel_loop xp 0 = 1"
| "getLevel_loop xp (Suc i) = (if xp \<ge> LEVEL_XP ! i then i + 1 else getLevel_loop xp i)"

definition getLevel :: "real \<Rightarrow> nat" where
  "getLevel xp = getLevel_loop xp (length LEVEL_XP)"

definition getXpProgress :: "real \<Rightarrow> jsnum" where
  "getXpProgress xp =
     (let lvl = getLevel xp;
          curr = js_or (js_index LEVEL_XP (lvl - 1)) 0;
          next = js_or (js_index LEVEL_XP lvl) (LEVEL_XP ! (length LEVEL_XP - 1))
      in Math_min (js_times_pos (js_div (xp - curr) (next - curr)) 100) 100)"

section \<open>Configuration\<close>

datatype activity = cycling | running | hiking

definition MIN_RIDE_POINTS :: nat where
  "MIN_RIDE_POINTS = 10"

definition MIN_ACCURACY_METERS :: real where
  "MIN_ACCURACY_METERS = 50"

fun MAX_SPEED_MS :: "activity \<Rightarrow> real" where
  "MAX_SPEED_MS cycling = 18"
| "MAX_SPEED_MS running = 8"
| "MAX_SPEED_MS hiking = 4"

section \<open>Great-circle distance\<close>

text \<open>
  \<^verbatim>\<open>Math.atan2(y, x)\<close> on reals: the angle of the point \<open>(x, y)\<close>, in \<open>(-\<pi>, \<pi>]\<close>,
  and \<open>0\<close> at the origin.
\<close>

definition atan2 :: "real \<Rightarrow> real \<Rightarrow> real" where
  "atan2 y x =
     (if x > 0 then arctan (y / x)
      else if x < 0 then (if y \<ge> 0 then arctan (y / x) + pi else arctan (y / x) - pi)
      else if y > 0 then pi / 2
      else if y < 0 then - (pi / 2)
      else 0)"

definition toRad :: "real \<Rightarrow> real" where
  "toRad x = x * pi / 180"

text \<open>
  \<^verbatim>\<open>haversine\<close>, lines 64 to 69 of \<^verbatim>\<open>src/App.jsx\<close>, in exact arithmetic. There the
  argument of both square roots lies between 0 and 1 (\<open>haversine_a_range\<close> below). In
  doubles the sum of line 67 can round to just above 1 when the two points are nearly
  antipodal; line 68 then takes the square root of a negative number and returns
  \<^verbatim>\<open>NaN\<close>. The definition gives the exact value there and so does not describe the code
  at such pairs of points: what is proved below about distances and speeds holds of the
  code where the distance it computes is a number.
\<close>

definition haversine_a :: "real \<Rightarrow> real \<Rightarrow> real \<Rightarrow> real \<Rightarrow> real" where
  "haversine_a lat1 lon1 lat2 lon2 =
     (let dLat = toRad (lat2 - lat1); dLon = toRad (lon2 - lon1)
      in (sin (dLat / 2))\<^sup>2 + cos (toRad lat1) * cos (toRad lat2) * (sin (dLon / 2))\<^sup>2)"

definition haversine :: "real \<Rightarrow> real \<Rightarrow> real \<Rightarrow> real \<Rightarrow> real" where
  "haversine lat1 lon1 lat2 lon2 =
     (let R = 6371000; a = haversine_a lat1 lon1 lat2 lon2
      in R * 2 * atan2 (sqrt a) (sqrt (1 - a)))"

section \<open>SHA-256 and the route signature\<close>

text \<open>
  \<^verbatim>\<open>sha256\<close>, lines 71 to 74 of \<^verbatim>\<open>src/App.jsx\<close>, hands the UTF-8 bytes of its argument
  to the platform's \<^verbatim>\<open>crypto.subtle.digest('SHA-256', ...)\<close> and prints the 32 bytes of
  the digest as lowercase hexadecimal. The digest is the function of FIPS 180-4, written
  out here on 32-bit words. A \<open>string\<close> stands for the UTF-8 bytes of the JavaScript
  string (cell identifiers and the separator are ASCII).
\<close>

type_synonym u8 = "8 word"
type_synonym u32 = "32 word"

text \<open>
  The round constants (the first 32 bits of the fractional parts of the cube roots of the
  first 64 primes; the first is \<^verbatim>\<open>428a2f98\<close> in hexadecimal) and the initial hash value
  (from the square roots of the first 8 primes; the first is \<^verbatim>\<open>6a09e667\<close>), in decimal.
\<close>

definition K256 :: "u32 list" where
  "K256 = [
   1116352408, 1899447441, 3049323471, 3921009573, 961987163, 1508970993,
   2453635748, 2870763221, 3624381080, 310598401, 607225278, 1426881987,
   1925078388, 2162078206, 2614888103, 3248222580, 3835390401, 4022224774,
   264347078, 604807628, 770255983, 1249150122, 1555081692, 1996064986,
   2554220882, 2821834349, 2952996808, 3210313671, 3336571891, 3584528711,
   113926993, 338241895, 666307205, 773529912, 1294757372, 1396182291,
   1695183700, 1986661051, 2177026350, 2456956037, 2730485921, 2820302411,
   3259730800, 3345764771, 3516065817, 3600352804, 4094571909, 275423344,
   430227734, 506948616, 659060556, 883997877, 958139571, 1322822218,
   1537002063, 1747873779, 1955562222, 2024104815, 2227730452, 2361852424,
   2428436474, 2756734187, 3204031479, 3329325298]"

definition H256 :: "u32 list" where
  "H256 = [1779033703, 3144134277, 1013904242, 2773480762,
           1359893119, 2600822924, 528734635, 1541459225]"

definition rotr :: "nat \<Rightarrow> u32 \<Rightarrow> u32" where
  "rotr n x = drop_bit n x OR push_bit (32 - n) x"

definition Ch :: "u32 \<Rightarrow> u32 \<Rightarrow> u32 \<Rightarrow> u32" where
  "Ch x y z = (x AND y) XOR (NOT x AND z)"

definition Maj :: "u32 \<Rightarrow> u32 \<Rightarrow> u32 \<Rightarrow> u32" where
  "Maj x y z = (x AND y) XOR (x AND z) XOR (y AND z)"

definition bsig0 :: "u32 \<Rightarrow> u32" where
  "bsig0 x = rotr 2 x XOR rotr 13 x XOR rotr 22 x"

definition bsig1 :: "u32 \<Rightarrow> u32" where
  "bsig1 x = rotr 6 x XOR rotr 11 x XOR rotr 25 x"

definition ssig0 :: "u32 \<Rightarrow> u32" where
  "ssig0 x = rotr 7 x XOR rotr 18 x XOR drop_bit 3 x"

definition ssig1 :: "u32 \<Rightarrow> u32" where
  "ssig1 x = rotr 17 x XOR rotr 19 x XOR drop_bit 10 x"

text \<open>The message length in bits, as eight bytes, most significant first.\<close>

definition be64 :: "nat \<Rightarrow> u8 list" where
  "be64 n = map (\<lambda>i. ucast (drop_bit (56 - 8 * i) (of_nat n :: 64 word))) [0..<8]"

text \<open>Padding: a one bit, zero bits up to 56 modulo 64 bytes, then the length.\<close>

definition pad :: "u8 list \<Rightarrow> u8 list" where
  "pad m = m @ [0x80] @ replicate ((119 - length m mod 64) mod 64) 0 @ be64 (8 * length m)"

fun be32s :: "u8 list \<Rightarrow> u32 list" where
  "be32s (a # b # c # d # r) =
     (push_bit 24 (ucast a) OR push_bit 16 (ucast b) OR push_bit 8 (ucast c) OR ucast d) # be32s r"
| "be32s _ = []"

text \<open>
  The message schedule. \<open>win\<close> holds the sixteen most recent words, newest first, so
  \<open>win ! 1\<close> is \<open>W\<^sub>t\<^sub>-\<^sub>2\<close> and \<open>win ! 15\<close> is \<open>W\<^sub>t\<^sub>-\<^sub>1\<^sub>6\<close>.
\<close>

fun schedule :: "nat \<Rightarrow> u32 list \<Rightarrow> u32 list" where
  "schedule 0 win = []"
| "schedule (Suc n) win =
     (let w = ssig1 (win ! 1) + win ! 6 + ssig0 (win ! 14) + win ! 15
      in w # schedule n (w # butlast win))"

definition round256 :: "u32 list \<Rightarrow> u32 \<times> u32 \<Rightarrow> u32 list" where
  "round256 s kw =
     (case s of
        [a, b, c, d, e, f, g, h] \<Rightarrow>
          (let t1 = h + bsig1 e + Ch e f g + fst kw + snd kw;
               t2 = bsig0 a + Maj a b c
           in [t1 + t2, a, b, c, d + t1, e, f, g])
      | _ \<Rightarrow> s)"

definition compress :: "u32 list \<Rightarrow> u32 list \<Rightarrow> u32 list" where
  "compress h blk =
     (let w = blk @ schedule 48 (rev blk)
      in map2 (+) h (foldl round256 h (zip K256 w)))"

fun blocks :: "nat \<Rightarrow> u32 list \<Rightarrow> u32 list list" where
  "blocks 0 ws = []"
| "blocks (Suc n) ws = take 16 ws # blocks n (drop 16 ws)"

definition digest_SHA256 :: "u8 list \<Rightarrow> u8 list" where
  "digest_SHA256 m =
     (let ws = be32s (pad m);
          h = foldl compress H256 (blocks (length ws div 16) ws)
      in concat (map (\<lambda>w. map (\<lambda>i. ucast (drop_bit (24 - 8 * i) w)) [0..<4]) h))"

definition hexdigit :: "nat \<Rightarrow> char" where
  "hexdigit n = ''0123456789abcdef'' ! n"

text \<open>\<^verbatim>\<open>b.toString(16).padStart(2,'0')\<close> for a byte.\<close>

definition hex2 :: "u8 \<Rightarrow> string" where
  "hex2 b = [hexdigit (unat (drop_bit 4 b)), hexdigit (unat (b AND 15))]"

definition TextEncoder_encode :: "string \<Rightarrow> u8 list" where
  "TextEncoder_encode msg = map (\<lambda>c. of_nat (of_char c)) msg"

definition sha256 :: "string \<Rightarrow> string" where
  "sha256 msg = concat (map hex2 (digest_SHA256 (TextEncoder_encode msg)))"

text \<open>\<^verbatim>\<open>xs.join(sep)\<close> on an array of strings.\<close>

fun join :: "string \<Rightarrow> string list \<Rightarrow> string" where
  "join sep [] = []"
| "join sep [x] = x"
| "join sep (x # y # r) = x @ sep @ join sep (y # r)"

section \<open>The recording session\<close>

text \<open>
  \<^verbatim>\<open>RecordingPage\<close> of \<^verbatim>\<open>src/App.jsx\<close> keeps a session in React state (\<^verbatim>\<open>state\<close>,
  \<^verbatim>\<open>stats\<close>, \<^verbatim>\<open>gps\<close>, \<^verbatim>\<open>cells\<close>) and in refs (\<^verbatim>\<open>startRef\<close>, \<^verbatim>\<open>pauseRef\<close>,
  \<^verbatim>\<open>pausedRef\<close>, \<^verbatim>\<open>pointsRef\<close>). Handlers run one at a time on the event loop, so each
  is a function from the session to the session. Times are \<^verbatim>\<open>Date.now()\<close> values,
  integers in milliseconds; a ref holding \<^verbatim>\<open>null\<close> is \<open>None\<close>.
\<close>

record point =
  lat :: real
  lng :: real
  ts :: int
  acc :: real

datatype gps_status = waiting | good | okay | poor

datatype rec_state = idle | recording | paused

record stats =
  distance :: real
  duration :: real
  tiles :: nat
  speed :: real

text \<open>
  \<open>cells\<close> is the JavaScript \<^verbatim>\<open>Set\<close> of cell identifiers: its elements without
  repetition, in insertion order, which is the order \<^verbatim>\<open>Array.from\<close> reads them in.
\<close>

record session =
  state :: rec_state
  stats :: stats
  gps :: gps_status
  cells :: "string list"
  startRef :: "int option"
  pauseRef :: "int option"
  pausedRef :: int
  pointsRef :: "point list"

definition init :: session where
  "init = \<lparr>state = idle, stats = \<lparr>distance = 0, duration = 0, tiles = 0, speed = 0\<rparr>,
            gps = waiting, cells = [], startRef = None, pauseRef = None, pausedRef = 0,
            pointsRef = []\<rparr>"

text \<open>\<^verbatim>\<open>new Set(prev).add(cell)\<close>.\<close>

definition set_add :: "'a \<Rightarrow> 'a list \<Rightarrow> 'a list" where
  "set_add c cs = (if c \<in> set cs then cs else cs @ [c])"

text \<open>A ref read in arithmetic: \<^verbatim>\<open>null\<close> counts as 0.\<close>

definition ms :: "int option \<Rightarrow> int" where
  "ms r = (case r of None \<Rightarrow> 0 | Some t \<Rightarrow> t)"

text \<open>
  The callback given to \<^verbatim>\<open>watchPosition\<close>, lines 1017 to 1039 (\<^verbatim>\<open>start\<close>) and, with the
  same body, lines 1060 to 1075 (\<^verbatim>\<open>resume\<close>). \<open>pt\<close> is the point the callback builds
  from the position and \<^verbatim>\<open>Date.now()\<close>; \<open>latLngToCell\<close> is the indexer of the h3-js
  library at \<^verbatim>\<open>CONFIG.H3_RESOLUTION\<close>, a parameter here. The moves of the map marker
  are left out.
\<close>

definition on_position ::
  "(real \<Rightarrow> real \<Rightarrow> string) \<Rightarrow> activity \<Rightarrow> point \<Rightarrow> session \<Rightarrow> session" where
  "on_position latLngToCell selectedActivity pt s0 =
     (let s1 = s0\<lparr>gps := (if acc pt \<le> 20 then good else if acc pt \<le> 50 then okay else poor)\<rparr>
      in if acc pt > MIN_ACCURACY_METERS then s1
         else
           let cell = latLngToCell (lat pt) (lng pt);
               n = set_add cell (cells s1);
               s2 = s1\<lparr>cells := n, stats := (stats s1)\<lparr>tiles := length n\<rparr>\<rparr>;
               prev = pointsRef s2
           in if length prev \<ge> 1 then
                let lst = last prev;
                    dst = haversine (lat lst) (lng lst) (lat pt) (lng pt);
                    dt = real_of_int (ts pt - ts lst) / 1000;
                    spd = (if dt > 0 then dst / dt else 0)
                in if spd > MAX_SPEED_MS selectedActivity then s2
                   else s2\<lparr>stats := (stats s2)\<lparr>distance := distance (stats s2) + dst,
                                                speed := spd * 3.6\<rparr>,
                           pointsRef := prev @ [pt]\<rparr>
              else s2\<lparr>pointsRef := prev @ [pt]\<rparr>)"

text \<open>\<^verbatim>\<open>start\<close>, lines 1008 to 1014, at time \<open>now\<close>.\<close>

definition start :: "int \<Rightarrow> session \<Rightarrow> session" where
  "start now s =
     s\<lparr>state := recording, startRef := Some now, pausedRef := 0, pointsRef := [],
       stats := \<lparr>distance = 0, duration = 0, tiles = 0, speed = 0\<rparr>, cells := []\<rparr>"

text \<open>The callback of the one-second interval timer, lines 1043 to 1045 and 1079 to 1081.\<close>

definition on_tick :: "int \<Rightarrow> session \<Rightarrow> session" where
  "on_tick now s =
     s\<lparr>stats := (stats s)\<lparr>duration := real_of_int (now - ms (startRef s) - pausedRef s) / 1000\<rparr>\<rparr>"

text \<open>\<^verbatim>\<open>pause\<close>, lines 1049 to 1054.\<close>

definition pause :: "int \<Rightarrow> session \<Rightarrow> session" where
  "pause now s = s\<lparr>state := paused, pauseRef := Some now\<rparr>"

text \<open>
  \<^verbatim>\<open>resume\<close>, lines 1056 to 1058. The test \<^verbatim>\<open>if (pauseRef.current)\<close> fails on
  \<^verbatim>\<open>null\<close> and on 0.
\<close>

definition resume :: "int \<Rightarrow> session \<Rightarrow> session" where
  "resume now s =
     (let s1 = (case pauseRef s of
                  None \<Rightarrow> s
                | Some p \<Rightarrow> if p \<noteq> 0 then s\<lparr>pausedRef := pausedRef s + (now - p)\<rparr> else s)
      in s1\<lparr>state := recording\<rparr>)"

text \<open>
  What reaches a session after \<^verbatim>\<open>start\<close>: positions from the watch, ticks of the timer,
  and the pause and resume buttons.
\<close>

datatype event = Position point | Tick int | Pause int | Resume int

fun step :: "(real \<Rightarrow> real \<Rightarrow> string) \<Rightarrow> activity \<Rightarrow> session \<Rightarrow> event \<Rightarrow> session" where
  "step c a s (Position pt) = on_position c a pt s"
| "step c a s (Tick now) = on_tick now s"
| "step c a s (Pause now) = pause now s"
| "step c a s (Resume now) = resume now s"

definition run :: "(real \<Rightarrow> real \<Rightarrow> string) \<Rightarrow> activity \<Rightarrow> int \<Rightarrow> event list \<Rightarrow> session" where
  "run c a t0 evs = foldl (step c a) (start t0 init) evs"

text \<open>
  The buttons shown depend on \<^verbatim>\<open>state\<close> (lines 1214 to 1238): Pause while recording,
  Resume while paused; \<^verbatim>\<open>pause\<close> clears the watch and the timer, so positions and ticks
  arrive only while recording. \<open>ui_ok m evs\<close> says that \<open>evs\<close> can follow a session in
  state \<open>m\<close>, at clock readings other than 0.
\<close>

fun ui_ok :: "rec_state \<Rightarrow> event list \<Rightarrow> bool" where
  "ui_ok m [] = True"
| "ui_ok m (Position pt # evs) = (m = recording \<and> ui_ok m evs)"
| "ui_ok m (Tick t # evs) = (m = recording \<and> ui_ok m evs)"
| "ui_ok m (Pause t # evs) = (m = recording \<and> t \<noteq> 0 \<and> ui_ok paused evs)"
| "ui_ok m (Resume t # evs) = (m = paused \<and> ui_ok recording evs)"

section \<open>Ending a session\<close>

record ride =
  user_id :: string
  activity_type :: activity
  started_at :: int
  ended_at :: int
  duration_sec :: int
  distance_m :: int
  route_signature :: string
  tiles_touched :: nat

text \<open>
  \<^verbatim>\<open>end\<close>, lines 1084 to 1106: either the session is abandoned with a toast, or the ride
  is handed to \<^verbatim>\<open>supabase.from('rides').insert\<close>. Dates are kept as milliseconds.
\<close>

datatype end_result = Abandoned string | Insert ride

definition end_session :: "string \<Rightarrow> activity \<Rightarrow> bool \<Rightarrow> int \<Rightarrow> session \<Rightarrow> end_result" where
  "end_session user selectedActivity save now s =
     (if \<not> save then Abandoned ''Discarded''
      else if length (pointsRef s) < MIN_RIDE_POINTS then Abandoned ''Too short''
      else
        let cellArr = cells s;
            sig = sha256 (join '','' cellArr)
        in Insert \<lparr>user_id = user, activity_type = selectedActivity,
                   started_at = ms (startRef s), ended_at = now,
                   duration_sec = \<lfloor>duration (stats s)\<rfloor>,
                   distance_m = \<lfloor>distance (stats s)\<rfloor>,
                   route_signature = sig, tiles_touched = length cellArr\<rparr>)"

definition inserted :: "end_result \<Rightarrow> ride option" where
  "inserted r = (case r of Abandoned _ \<Rightarrow> None | Insert x \<Rightarrow> Some x)"

section \<open>The unlock evaluator\<close>

text \<open>
  \<^verbatim>\<open>SummaryPage\<close>, lines 1280 to 1286. \<open>started_at r\<close> stands for
  \<^verbatim>\<open>new Date(r.started_at).getTime()\<close>. After a successful insert, \<^verbatim>\<open>end\<close> puts the new
  ride at the head of \<^verbatim>\<open>rides\<close> and makes it \<^verbatim>\<open>lastRide\<close> (lines 1108 and 1109).
\<close>

definition recentCount :: "ride list \<Rightarrow> ride option \<Rightarrow> int \<Rightarrow> nat" where
  "recentCount rides lastRide now =
     (case lastRide of
        None \<Rightarrow> 0
      | Some lr \<Rightarrow>
          let wk = now - 7 * 86400000
          in length (filter (\<lambda>r. route_signature r = route_signature lr \<and> started_at r \<ge> wk) rides))"

definition unlocked :: "ride list \<Rightarrow> ride option \<Rightarrow> int \<Rightarrow> bool" where
  "unlocked rides lastRide now = (recentCount rides lastRide now \<ge> 3)"

definition on_saved :: "ride \<Rightarrow> ride list \<Rightarrow> ride list \<times> ride option" where
  "on_saved data rides = (data # rides, Some data)"

section \<open>Reference notions\<close>

text \<open>
  The notions below are not part of the program: the statements about it are written
  with them.
\<close>

text \<open>The length of a path: the sum of the great-circle distances between neighbours.\<close>

fun path_length :: "point list \<Rightarrow> real" where
  "path_length (p # q # ps) = haversine (lat p) (lng p) (lat q) (lng q) + path_length (q # ps)"
| "path_length ps = 0"

text \<open>The points of the positions that pass the accuracy test, in order of arrival.\<close>

fun gated_points :: "event list \<Rightarrow> point list" where
  "gated_points [] = []"
| "gated_points (Position pt # evs) =
     (if acc pt \<le> 50 then pt # gated_points evs else gated_points evs)"
| "gated_points (e # evs) = gated_points evs"

text \<open>The elements of a list in the order of their first occurrence.\<close>

fun first_visited :: "'a list \<Rightarrow> 'a list" where
  "first_visited [] = []"
| "first_visited (x # xs) = x # filter (\<lambda>y. y \<noteq> x) (first_visited xs)"

text \<open>
  The time spent paused up to \<open>now\<close>: the first argument is the start of the pause that
  is running, if one is.
\<close>

fun paused_total :: "int option \<Rightarrow> event list \<Rightarrow> int \<Rightarrow> int" where
  "paused_total None [] now = 0"
| "paused_total (Some p) [] now = now - p"
| "paused_total q (Pause t # evs) now = paused_total (Some t) evs now"
| "paused_total None (Resume t # evs) now = paused_total None evs now"
| "paused_total (Some p) (Resume t # evs) now = (t - p) + paused_total None evs now"
| "paused_total q (Position pt # evs) now = paused_total q evs now"
| "paused_total q (Tick t # evs) now = paused_total q evs now"

text \<open>
  The wall-clock time from the start at \<open>t0\<close> to \<open>now\<close>, minus the time spent paused.
\<close>

definition active_time :: "int \<Rightarrow> event list \<Rightarrow> int \<Rightarrow> int" where
  "active_time t0 evs now = (now - t0) - paused_total None evs now"

text \<open>The events before the last timer tick, and the clock reading of that tick.\<close>

fun last_tick :: "event list \<Rightarrow> (event list \<times> int) option" where
  "last_tick [] = None"
| "last_tick (e # evs) =
     (case last_tick evs of
        Some (pre, t) \<Rightarrow> Some (e # pre, t)
      | None \<Rightarrow> (case e of Tick t \<Rightarrow> Some ([], t) | _ \<Rightarrow> None))"

text \<open>The state the buttons leave a session in.\<close>

fun mode_after :: "rec_state \<Rightarrow> event list \<Rightarrow> rec_state" where
  "mode_after m [] = m"
| "mode_after m (Pause t # evs) = mode_after paused evs"
| "mode_after m (Resume t # evs) = mode_after recording evs"
| "mode_after m (e # evs) = mode_after m evs"

text \<open>The start of the running pause, as the session holds it.\<close>

definition pending :: "session \<Rightarrow> rec_state \<Rightarrow> int option" where
  "pending s m = (if m = paused then pauseRef s else None)"

text \<open>
  The speed the callback derives for a sample \<open>q\<close> that follows the accepted sample
  \<open>p\<close>, and the lists of samples in which no sample exceeds the ceiling of the activity
  after the one before.
\<close>

definition implied_speed :: "point \<Rightarrow> point \<Rightarrow> real" where
  "implied_speed p q =
     (let dt = real_of_int (ts q - ts p) / 1000
      in if dt > 0 then haversine (lat p) (lng p) (lat q) (lng q) / dt else 0)"

fun within_speed :: "activity \<Rightarrow> point list \<Rightarrow> bool" where
  "within_speed a (p # q # ps) = (\<not> implied_speed p q > MAX_SPEED_MS a \<and> within_speed a (q # ps))"
| "within_speed a ps = True"

section \<open>Example sessions\<close>

text \<open>
  Two cell identifiers and an indexer that tells the two apart along the equator; a
  point at longitude 0 and one at longitude 0.0005 (about 56 metres east of it).
\<close>

definition cell_A :: string where "cell_A = ''8a754e64992ffff''"

definition cell_B :: string where "cell_B = ''8a754e64d6dffff''"

definition two_cells :: "real \<Rightarrow> real \<Rightarrow> string" where
  "two_cells la lo = (if lo < 1 / 4000 then cell_A else cell_B)"

definition at_A :: "int \<Rightarrow> point" where
  "at_A t = \<lparr>lat = 0, lng = 0, ts = t, acc = 5\<rparr>"


text \<open>
  Ten seconds at rest: a position every second, half a second before each timer tick.
\<close>

definition ten_seconds_still :: "event list" where
  "ten_seconds_still =
     [Position (at_A 500), Tick 1000, Position (at_A 1500), Tick 2000,
      Position (at_A 2500), Tick 3000, Position (at_A 3500), Tick 4000,
      Position (at_A 4500), Tick 5000, Position (at_A 5500), Tick 6000,
      Position (at_A 6500), Tick 7000, Position (at_A 7500), Tick 8000,
      Position (at_A 8500), Tick 9000, Position (at_A 9500), Tick 10000]"

text \<open>
  The same, then a pause 0.9 seconds after the tenth tick and a resume 9.1 seconds later.
\<close>

definition pause_near_end :: "event list" where
  "pause_near_end = ten_seconds_still @ [Pause 10900, Resume 20000]"




text \<open>
  An accepted sample at longitude 0, a sample one degree east of it a second later
  (about 111 kilometres away), then nine samples at rest at longitude 0.
\<close>

definition jump_then_rest :: "event list" where
  "jump_then_rest = map Position
     [\<lparr>lat = 0, lng = 0, ts = 1000, acc = 10\<rparr>, \<lparr>lat = 0, lng = 1, ts = 2000, acc = 10\<rparr>,
      at_A 3000, at_A 4000, at_A 5000, at_A 6000, at_A 7000, at_A 8000, at_A 9000,
      at_A 10000, at_A 11000]"

text \<open>
  Twelve samples along the equator, starting at longitude 0, two seconds and 0.00009
  degrees of longitude (about 10.008 metres) apart, each of accuracy 15 metres.
\<close>

definition scenario_sample :: "nat \<Rightarrow> point" where
  "scenario_sample i = \<lparr>lat = 0, lng = real i * 9 / 100000, ts = 2000 * int i, acc = 15\<rparr>"

definition scenario_samples :: "point list" where
  "scenario_samples = map scenario_sample [0, 1, 2, 3, 4, 5, 6, 7, 8, 9, 10, 11]"

section \<open>Facts about the great-circle distance\<close>

lemma sin_half_sq: "(sin (x / 2))\<^sup>2 = (1 - cos x) / (2::real)"
  using cos_double_sin [of "x / 2"] by simp

lemma abs_mult_le_half: "\<bar>x * y\<bar> \<le> (x\<^sup>2 + y\<^sup>2) / (2::real)"
proof -
  have "0 \<le> (\<bar>x\<bar> - \<bar>y\<bar>)\<^sup>2" by simp
  then have "2 * (\<bar>x\<bar> * \<bar>y\<bar>) \<le> x\<^sup>2 + y\<^sup>2"
    by (simp add: power2_diff)
  then show ?thesis by (simp add: abs_mult)
qed

lemma cos_central_bound:
  fixes p q v :: real
  shows "\<bar>sin p * sin q + cos p * cos q * cos v\<bar> \<le> 1"
proof -
  have "\<bar>cos p * cos q * cos v\<bar> = \<bar>cos p * cos q\<bar> * \<bar>cos v\<bar>"
    by (simp add: abs_mult)
  also have "\<dots> \<le> \<bar>cos p * cos q\<bar> * 1"
    by (rule mult_left_mono) (simp_all add: abs_cos_le_one)
  finally have c: "\<bar>cos p * cos q * cos v\<bar> \<le> \<bar>cos p * cos q\<bar>" by simp
  have "\<bar>sin p * sin q + cos p * cos q * cos v\<bar> \<le> \<bar>sin p * sin q\<bar> + \<bar>cos p * cos q * cos v\<bar>"
    by (rule abs_triangle_ineq)
  also have "\<dots> \<le> ((sin p)\<^sup>2 + (sin q)\<^sup>2) / 2 + ((cos p)\<^sup>2 + (cos q)\<^sup>2) / 2"
    using abs_mult_le_half [of "sin p" "sin q"] abs_mult_le_half [of "cos p" "cos q"] c
    by linarith
  also have "\<dots> = 1"
    by (simp add: sin_squared_eq field_simps)
  finally show ?thesis .
qed

lemma haversine_a_alt:
  "haversine_a lat1 lon1 lat2 lon2 =
     (1 - (sin (toRad lat1) * sin (toRad lat2)
           + cos (toRad lat1) * cos (toRad lat2) * cos (toRad (lon2 - lon1)))) / 2"
proof -
  have d: "toRad (lat2 - lat1) = toRad lat2 - toRad lat1"
    by (simp add: toRad_def field_simps)
  show ?thesis
    unfolding haversine_a_def Let_def sin_half_sq d cos_diff
    by (simp add: field_simps)
qed

lemma haversine_a_range:
  "0 \<le> haversine_a lat1 lon1 lat2 lon2 \<and> haversine_a lat1 lon1 lat2 lon2 \<le> 1"
  using cos_central_bound [of "toRad lat1" "toRad lat2" "toRad (lon2 - lon1)"]
  unfolding haversine_a_alt by (simp add: abs_le_iff)

lemma haversine_same: "haversine la lo la lo = 0"
  by (simp add: haversine_def haversine_a_def Let_def toRad_def atan2_def)

lemma atan2_sin_cos: "0 \<le> x \<Longrightarrow> x \<le> pi / 2 \<Longrightarrow> atan2 (sin x) (cos x) = x"
proof (cases "x = pi / 2")
  case True
  show ?thesis unfolding True by (simp add: atan2_def)
next
  case False
  assume "0 \<le> x" "x \<le> pi / 2"
  with False have lt: "x < pi / 2" by simp
  then have "0 < cos x" using \<open>0 \<le> x\<close> by (intro cos_gt_zero_pi) auto
  moreover have "arctan (sin x / cos x) = x"
    using arctan_tan [of x] lt \<open>0 \<le> x\<close> by (simp add: tan_def)
  ultimately show ?thesis by (simp add: atan2_def)
qed

lemma haversine_equator:
  assumes "0 \<le> l2 - l1" "l2 - l1 \<le> 180"
  shows "haversine 0 l1 0 l2 = 6371000 * toRad (l2 - l1)"
proof -
  define x where "x = toRad (l2 - l1) / 2"
  have "(l2 - l1) * pi \<le> 180 * pi"
    using assms by (intro mult_right_mono) simp_all
  then have x1: "x \<le> pi / 2"
    by (simp add: x_def toRad_def)
  have x0: "0 \<le> x"
    using assms by (simp add: x_def toRad_def)
  have a: "haversine_a 0 l1 0 l2 = (sin x)\<^sup>2"
    by (simp add: haversine_a_def Let_def toRad_def x_def)
  have s: "sqrt ((sin x)\<^sup>2) = sin x"
    using x0 x1 pi_gt_zero by (simp add: sin_ge_zero)
  have "1 - (sin x)\<^sup>2 = (cos x)\<^sup>2"
    by (simp add: cos_squared_eq)
  then have c: "sqrt (1 - (sin x)\<^sup>2) = cos x"
    using x0 x1 by (simp add: cos_ge_zero)
  have "haversine 0 l1 0 l2 = 6371000 * 2 * atan2 (sqrt ((sin x)\<^sup>2)) (sqrt (1 - (sin x)\<^sup>2))"
    unfolding haversine_def Let_def a ..
  also have "\<dots> = 6371000 * 2 * atan2 (sin x) (cos x)"
    by (simp only: s c)
  also have "\<dots> = 6371000 * 2 * x"
    by (simp only: atan2_sin_cos [OF x0 x1])
  also have "\<dots> = 6371000 * toRad (l2 - l1)"
    by (simp add: x_def)
  finally show ?thesis .
qed


lemma one_degree: "haversine 0 0 0 1 = 6371000 * pi / 180"
proof -
  have "haversine 0 0 0 1 = 6371000 * toRad (1 - 0)"
    by (rule haversine_equator) simp_all
  then show ?thesis by (simp add: toRad_def)
qed



text \<open>Bounds on \<open>\<pi>\<close>, from \<open>sin (\<pi> / 6) = 1 / 2\<close> and the series of the sine.\<close>

lemma sin_cubic: "\<bar>sin x - (x - x ^ 3 / 6)\<bar> \<le> \<bar>x\<bar> ^ 5 / 120" for x :: real
proof -
  have c: "sin_coeff (Suc 0) = 1" "sin_coeff 2 = 0" "sin_coeff 3 = - 1 / 6" "sin_coeff 4 = 0"
    by (simp_all add: sin_coeff_def fact_numeral)
  have "{..<5::nat} = {0, 1, 2, 3, 4}" by auto
  then have s: "(\<Sum>m<5. sin_coeff m * x ^ m) = x - x ^ 3 / 6"
    by (simp add: c)
  have f: "inverse (fact 5) * \<bar>x\<bar> ^ 5 = \<bar>x\<bar> ^ 5 / 120"
    by (simp add: eval_nat_numeral)
  show ?thesis
    using Maclaurin_sin_bound [of x 5] unfolding s f .
qed

lemma pi_bounds: "3141 / 1000 < pi" "pi \<le> 3147 / 1000"
proof -
  define x :: real where "x = pi / 6"
  have x0: "0 \<le> x" by (simp add: x_def)
  have s: "\<bar>1 / 2 - (x - x ^ 3 / 6)\<bar> \<le> x ^ 5 / 120"
    using sin_cubic [of x] x0 by (simp add: x_def sin_30)
  then have up: "x \<le> 1 / 2 + x ^ 3 / 6 + x ^ 5 / 120"
    and lo: "1 / 2 + x ^ 3 / 6 - x ^ 5 / 120 \<le> x"
    by linarith+
  have pw: "x ^ n \<le> b ^ n" if "x \<le> b" for b n
    using that x0 by (rule power_mono)
  have pl: "b ^ n \<le> x ^ n" if "b \<le> x" "0 \<le> b" for b n
    using that by (rule power_mono)
  have u0: "x \<le> 2 / 3" using pi_less_4 by (simp add: x_def)
  have u1: "x \<le> 56 / 100" using up pw [OF u0, of 3] pw [OF u0, of 5] by (simp add: power_divide)
  have u2: "x \<le> 53 / 100" using up pw [OF u1, of 3] pw [OF u1, of 5] by (simp add: power_divide)
  have u3: "x \<le> 5252 / 10000" using up pw [OF u2, of 3] pw [OF u2, of 5] by (simp add: power_divide)
  have u4: "x \<le> 5245 / 10000" using up pw [OF u3, of 3] pw [OF u3, of 5] by (simp add: power_divide)
  have l0: "1 / 3 \<le> x" using pi_ge_two by (simp add: x_def)
  have l1: "505 / 1000 \<le> x"
    using lo pl [OF l0, of 3] pw [OF u4, of 5] by (simp add: power_divide)
  have l2: "521 / 1000 \<le> x"
    using lo pl [OF l1, of 3] pw [OF u4, of 5] by (simp add: power_divide)
  have l3: "5232 / 10000 \<le> x"
    using lo pl [OF l2, of 3] pw [OF u4, of 5] by (simp add: power_divide)
  have l4: "5235 / 10000 \<le> x"
    using lo pl [OF l3, of 3] pw [OF u4, of 5] by (simp add: power_divide)
  have l5: "52358 / 100000 \<le> x"
    using lo pl [OF l4, of 3] pw [OF u4, of 5] by (simp add: power_divide)
  show "3141 / 1000 < pi" using l5 by (simp add: x_def)
  show "pi \<le> 3147 / 1000" using u4 by (simp add: x_def)
qed

section \<open>What each handler leaves alone\<close>

lemma on_position_refs [simp]:
  "startRef (on_position c a pt s) = startRef s"
  "pauseRef (on_position c a pt s) = pauseRef s"
  "pausedRef (on_position c a pt s) = pausedRef s"
  "state (on_position c a pt s) = state s"
  "duration (stats (on_position c a pt s)) = duration (stats s)"
  by (simp_all add: on_position_def Let_def)

lemma on_tick_frame [simp]:
  "pointsRef (on_tick t s) = pointsRef s"
  "cells (on_tick t s) = cells s"
  "distance (stats (on_tick t s)) = distance (stats s)"
  "startRef (on_tick t s) = startRef s"
  "pauseRef (on_tick t s) = pauseRef s"
  "pausedRef (on_tick t s) = pausedRef s"
  by (simp_all add: on_tick_def)

lemma pause_frame [simp]:
  "pointsRef (pause t s) = pointsRef s"
  "cells (pause t s) = cells s"
  "stats (pause t s) = stats s"
  "startRef (pause t s) = startRef s"
  "pausedRef (pause t s) = pausedRef s"
  "pauseRef (pause t s) = Some t"
  by (simp_all add: pause_def)

lemma resume_frame [simp]:
  "pointsRef (resume t s) = pointsRef s"
  "cells (resume t s) = cells s"
  "stats (resume t s) = stats s"
  "startRef (resume t s) = startRef s"
  by (simp_all add: resume_def Let_def split: option.split)

lemma run_snoc: "run c a t0 (evs @ [e]) = step c a (run c a t0 evs) e"
  by (simp add: run_def)

lemma run_Nil: "run c a t0 [] = start t0 init"
  by (simp add: run_def)

lemmas handler_defs = on_position_def on_tick_def pause_def resume_def start_def init_def
  Let_def set_add_def ms_def MIN_ACCURACY_METERS_def

lemma end_session_Insert:
  assumes "end_session u a True now s = Insert r"
  shows "tiles_touched r = length (cells s)"
    and "route_signature r = sha256 (join '','' (cells s))"
    and "duration_sec r = \<lfloor>duration (stats s)\<rfloor>"
    and "distance_m r = \<lfloor>distance (stats s)\<rfloor>"
    and "length (pointsRef s) \<ge> 10"
  using assms by (auto simp add: end_session_def Let_def MIN_RIDE_POINTS_def split: if_splits)


section \<open>The sample filter\<close>

text \<open>
  C4. A position whose accuracy exceeds the maximum of 50 metres is rejected by the
  callback: only the GPS indicator changes (to \<open>poor\<close>); the cumulative distance, the
  sequence of accepted samples and the set of visited cells stay as they were.
\<close>

theorem accuracy_gate_rejects:
  "acc pt > 50 \<Longrightarrow>
     on_position c a pt s = s\<lparr>gps := poor\<rparr> \<and>
     distance (stats (on_position c a pt s)) = distance (stats s) \<and>
     pointsRef (on_position c a pt s) = pointsRef s \<and>
     cells (on_position c a pt s) = cells s"
  by (simp add: on_position_def MIN_ACCURACY_METERS_def)

theorem accuracy_gate_rejects_witness:
  "acc \<lparr>lat = 0, lng = 0, ts = 1000, acc = 60\<rparr> > (50::real) \<and>
   on_position two_cells cycling \<lparr>lat = 0, lng = 0, ts = 1000, acc = 60\<rparr> (start 0 init)
     = (start 0 init)\<lparr>gps := poor\<rparr> \<and>
   distance (stats (on_position two_cells cycling \<lparr>lat = 0, lng = 0, ts = 1000, acc = 60\<rparr> (start 0 init)))
     = 0 \<and>
   pointsRef (on_position two_cells cycling \<lparr>lat = 0, lng = 0, ts = 1000, acc = 60\<rparr> (start 0 init))
     = [] \<and>
   cells (on_position two_cells cycling \<lparr>lat = 0, lng = 0, ts = 1000, acc = 60\<rparr> (start 0 init))
     = []"
  using accuracy_gate_rejects [of "\<lparr>lat = 0, lng = 0, ts = 1000, acc = 60\<rparr>"
      two_cells cycling "start 0 init"]
  by (simp add: start_def init_def)

text \<open>
  Whatever the accuracy and the speed tests decide, the callback keeps every visited cell
  and leaves the accepted samples as they were or appends the new sample.
\<close>

lemma on_position_keeps_cells_and_points:
  "set (cells s) \<subseteq> set (cells (on_position c a pt s)) \<and>
   (pointsRef (on_position c a pt s) = pointsRef s \<or>
    pointsRef (on_position c a pt s) = pointsRef s @ [pt])"
  by (auto simp add: on_position_def Let_def set_add_def)

text \<open>
  C3. A position that passes the accuracy test and implies a speed above the ceiling of
  the activity is rejected: it is not appended to the accepted samples and the distance
  stays. The cell of the position has been added to the visited cells before the speed
  test, though, so the set of visited cells and the tile count do change when the cell is
  new.
\<close>

theorem speed_rejected_sample_adds_cell:
  assumes "acc pt \<le> 50" and "pointsRef s \<noteq> []"
    and "ts pt > ts (last (pointsRef s))"
    and "haversine (lat (last (pointsRef s))) (lng (last (pointsRef s))) (lat pt) (lng pt)
           / (real_of_int (ts pt - ts (last (pointsRef s))) / 1000) > MAX_SPEED_MS a"
  shows "pointsRef (on_position c a pt s) = pointsRef s \<and>
         distance (stats (on_position c a pt s)) = distance (stats s) \<and>
         cells (on_position c a pt s) = set_add (c (lat pt) (lng pt)) (cells s) \<and>
         tiles (stats (on_position c a pt s)) = length (set_add (c (lat pt) (lng pt)) (cells s))"
proof -
  have "length (pointsRef s) \<ge> 1" using assms(2) by (cases "pointsRef s") simp_all
  then show ?thesis
    using assms by (simp add: on_position_def Let_def MIN_ACCURACY_METERS_def)
qed

theorem speed_rejected_sample_adds_cell_witness:
  "acc \<lparr>lat = 0, lng = 1, ts = 2000, acc = 10\<rparr> \<le> (50::real) \<and>
   pointsRef (on_position two_cells cycling \<lparr>lat = 0, lng = 0, ts = 1000, acc = 10\<rparr> (start 0 init))
     = [\<lparr>lat = 0, lng = 0, ts = 1000, acc = 10\<rparr>] \<and>
   cells (on_position two_cells cycling \<lparr>lat = 0, lng = 0, ts = 1000, acc = 10\<rparr> (start 0 init))
     = [cell_A] \<and>
   pointsRef (on_position two_cells cycling \<lparr>lat = 0, lng = 1, ts = 2000, acc = 10\<rparr>
       (on_position two_cells cycling \<lparr>lat = 0, lng = 0, ts = 1000, acc = 10\<rparr> (start 0 init)))
     = [\<lparr>lat = 0, lng = 0, ts = 1000, acc = 10\<rparr>] \<and>
   distance (stats (on_position two_cells cycling \<lparr>lat = 0, lng = 1, ts = 2000, acc = 10\<rparr>
       (on_position two_cells cycling \<lparr>lat = 0, lng = 0, ts = 1000, acc = 10\<rparr> (start 0 init))))
     = 0 \<and>
   cells (on_position two_cells cycling \<lparr>lat = 0, lng = 1, ts = 2000, acc = 10\<rparr>
       (on_position two_cells cycling \<lparr>lat = 0, lng = 0, ts = 1000, acc = 10\<rparr> (start 0 init)))
     = [cell_A, cell_B] \<and>
   tiles (stats (on_position two_cells cycling \<lparr>lat = 0, lng = 1, ts = 2000, acc = 10\<rparr>
       (on_position two_cells cycling \<lparr>lat = 0, lng = 0, ts = 1000, acc = 10\<rparr> (start 0 init))))
     = 2"
proof -
  let ?p0 = "\<lparr>lat = 0, lng = 0, ts = 1000, acc = 10\<rparr>"
  let ?p1 = "\<lparr>lat = 0, lng = 1, ts = 2000, acc = 10\<rparr>"
  let ?s0 = "on_position two_cells cycling ?p0 (start 0 init)"
  have s0: "?s0 = \<lparr>state = recording, stats = \<lparr>distance = 0, duration = 0, tiles = 1, speed = 0\<rparr>,
      gps = good, cells = [cell_A], startRef = Some 0, pauseRef = None, pausedRef = 0,
      pointsRef = [?p0]\<rparr>"
    by (simp add: handler_defs two_cells_def)
  have fast: "haversine (lat (last (pointsRef ?s0))) (lng (last (pointsRef ?s0))) (lat ?p1) (lng ?p1)
           / (real_of_int (ts ?p1 - ts (last (pointsRef ?s0))) / 1000) > MAX_SPEED_MS cycling"
    using pi_ge_two by (simp add: s0 one_degree)
  have "cell_A \<noteq> cell_B" by (simp add: cell_A_def cell_B_def)
  then show ?thesis
    using speed_rejected_sample_adds_cell [of ?p1 ?s0 cycling two_cells, OF _ _ _ fast]
    by (simp add: s0 two_cells_def set_add_def)
qed

text \<open>
  C8. \<^verbatim>\<open>tiles_touched\<close> is meant to be the number of distinct cells the session has
  visited. It is the size of the cell set when the session ends, and a position rejected
  for its speed has left its cell there (C3): a session of ten accepted samples, all in
  one cell, and one rejected jump into another cell is saved with \<^verbatim>\<open>tiles_touched\<close> 2.
\<close>

theorem tiles_touched_counts_rejected_cell:
  assumes "c 0 1 \<noteq> c 0 0"
  shows "pointsRef (run c cycling 0 jump_then_rest)
           = \<lparr>lat = 0, lng = 0, ts = 1000, acc = 10\<rparr>
             # map at_A [3000, 4000, 5000, 6000, 7000, 8000, 9000, 10000, 11000] \<and>
         (\<lambda>p. c (lat p) (lng p)) ` set (pointsRef (run c cycling 0 jump_then_rest)) = {c 0 0} \<and>
         cells (run c cycling 0 jump_then_rest) = [c 0 0, c 0 1] \<and>
         map_option tiles_touched
           (inserted (end_session u cycling True now (run c cycling 0 jump_then_rest))) = Some 2"
proof -
  have r: "run c cycling 0 jump_then_rest =
     \<lparr>state = recording, stats = \<lparr>distance = 0, duration = 0, tiles = 2, speed = 0\<rparr>,
      gps = good, cells = [c 0 0, c 0 1], startRef = Some 0, pauseRef = None, pausedRef = 0,
      pointsRef = \<lparr>lat = 0, lng = 0, ts = 1000, acc = 10\<rparr>
             # map at_A [3000, 4000, 5000, 6000, 7000, 8000, 9000, 10000, 11000]\<rparr>"
    using assms pi_ge_two
    by (simp add: run_def jump_then_rest_def handler_defs at_A_def haversine_same one_degree)
  show ?thesis
    by (simp add: r end_session_def inserted_def MIN_RIDE_POINTS_def Let_def at_A_def)
qed

theorem tiles_touched_counts_rejected_cell_witness:
  "two_cells 0 1 \<noteq> two_cells 0 0 \<and>
   pointsRef (run two_cells cycling 0 jump_then_rest)
     = \<lparr>lat = 0, lng = 0, ts = 1000, acc = 10\<rparr>
       # map at_A [3000, 4000, 5000, 6000, 7000, 8000, 9000, 10000, 11000] \<and>
   (\<lambda>p. two_cells (lat p) (lng p)) ` set (pointsRef (run two_cells cycling 0 jump_then_rest))
     = {cell_A} \<and>
   cells (run two_cells cycling 0 jump_then_rest) = [cell_A, cell_B] \<and>
   map_option tiles_touched
     (inserted (end_session ''u'' cycling True 12000 (run two_cells cycling 0 jump_then_rest)))
     = Some 2"
proof -
  have d: "two_cells 0 1 \<noteq> two_cells 0 0"
    by (simp add: two_cells_def cell_A_def cell_B_def)
  have v: "two_cells 0 0 = cell_A" "two_cells 0 1 = cell_B"
    by (simp_all add: two_cells_def)
  from tiles_touched_counts_rejected_cell
         [where c = two_cells and u = "''u''" and now = 12000, OF d] d
  show ?thesis
    by (simp add: v two_cells_def at_A_def)
qed

section \<open>The distance is the length of the accepted path\<close>

lemma path_length_snoc:
  "ps \<noteq> [] \<Longrightarrow>
     path_length (ps @ [q]) =
       path_length ps + haversine (lat (last ps)) (lng (last ps)) (lat q) (lng q)"
  by (induction ps rule: path_length.induct) simp_all

lemma on_position_distance:
  assumes "distance (stats s) = path_length (pointsRef s)"
  shows "distance (stats (on_position c a pt s)) = path_length (pointsRef (on_position c a pt s))"
proof (cases "pointsRef s = []")
  case True
  with assms show ?thesis by (simp add: on_position_def Let_def)
next
  case False
  then have "length (pointsRef s) \<ge> 1" by (cases "pointsRef s") simp_all
  with assms False show ?thesis
    by (simp add: on_position_def Let_def path_length_snoc)
qed

lemma step_distance:
  "distance (stats s) = path_length (pointsRef s) \<Longrightarrow>
     distance (stats (step c a s e)) = path_length (pointsRef (step c a s e))"
  by (cases e) (simp_all add: on_position_distance)

lemma run_distance:
  "distance (stats (run c a t0 evs)) = path_length (pointsRef (run c a t0 evs))"
proof (induction evs rule: rev_induct)
  case Nil
  show ?case by (simp add: run_Nil start_def)
next
  case (snoc e evs)
  then show ?case by (simp only: run_snoc step_distance)
qed

lemma run_still':
  "run two_cells cycling 0 ten_seconds_still =
     \<lparr>state = recording, stats = \<lparr>distance = 0, duration = 10, tiles = 1, speed = 0\<rparr>,
      gps = good, cells = [cell_A], startRef = Some 0, pauseRef = None, pausedRef = 0,
      pointsRef = [at_A 500, at_A 1500, at_A 2500, at_A 3500, at_A 4500,
                   at_A 5500, at_A 6500, at_A 7500, at_A 8500, at_A 9500]\<rparr>"
  by (simp add: run_def ten_seconds_still_def handler_defs two_cells_def at_A_def haversine_same)

lemma run_still_wait:
  "run two_cells cycling 0 (ten_seconds_still @ [Tick 11000, Tick 12000]) =
     \<lparr>state = recording, stats = \<lparr>distance = 0, duration = 12, tiles = 1, speed = 0\<rparr>,
      gps = good, cells = [cell_A], startRef = Some 0, pauseRef = None, pausedRef = 0,
      pointsRef = [at_A 500, at_A 1500, at_A 2500, at_A 3500, at_A 4500,
                   at_A 5500, at_A 6500, at_A 7500, at_A 8500, at_A 9500]\<rparr>"
  using run_still' by (simp add: run_def on_tick_def ms_def)

text \<open>
  C7, as the code has it. The \<^verbatim>\<open>distance_m\<close> of a saved ride is determined by the
  accepted samples: it is the length of the path through them, rounded down, so two
  sessions with the same accepted samples save the same \<^verbatim>\<open>distance_m\<close>. (The
  \<^verbatim>\<open>duration_sec\<close> comes from the timer, not from the samples.)
\<close>

theorem distance_m_from_accepted_samples:
  assumes "pointsRef (run c1 a1 t1 evs1) = pointsRef (run c2 a2 t2 evs2)"
    and "end_session u1 a1 True n1 (run c1 a1 t1 evs1) = Insert r1"
    and "end_session u2 a2 True n2 (run c2 a2 t2 evs2) = Insert r2"
  shows "distance_m r1 = distance_m r2 \<and>
         distance_m r1 = \<lfloor>path_length (pointsRef (run c1 a1 t1 evs1))\<rfloor>"
proof -
  have "distance_m r1 = \<lfloor>distance (stats (run c1 a1 t1 evs1))\<rfloor>"
    using assms(2) by (auto simp add: end_session_def Let_def split: if_splits)
  moreover have "distance_m r2 = \<lfloor>distance (stats (run c2 a2 t2 evs2))\<rfloor>"
    using assms(3) by (auto simp add: end_session_def Let_def split: if_splits)
  ultimately show ?thesis
    using assms(1) by (simp add: run_distance)
qed

theorem distance_m_from_accepted_samples_witness:
  "pointsRef (run two_cells cycling 0 ten_seconds_still)
     = pointsRef (run two_cells cycling 0 (ten_seconds_still @ [Tick 11000, Tick 12000])) \<and>
   (\<exists>r1 r2.
      end_session ''u'' cycling True 10500 (run two_cells cycling 0 ten_seconds_still) = Insert r1 \<and>
      end_session ''u'' cycling True 12500
        (run two_cells cycling 0 (ten_seconds_still @ [Tick 11000, Tick 12000])) = Insert r2 \<and>
      distance_m r1 = distance_m r2 \<and> distance_m r1 = 0)"
proof -
  let ?A = "run two_cells cycling 0 ten_seconds_still"
  let ?B = "run two_cells cycling 0 (ten_seconds_still @ [Tick 11000, Tick 12000])"
  have p: "pointsRef ?A = pointsRef ?B"
    by (simp add: run_still' run_still_wait)
  obtain r1 where r1: "end_session ''u'' cycling True 10500 ?A = Insert r1"
    by (simp add: run_still' end_session_def MIN_RIDE_POINTS_def Let_def)
  obtain r2 where r2: "end_session ''u'' cycling True 12500 ?B = Insert r2"
    by (simp add: run_still_wait end_session_def MIN_RIDE_POINTS_def Let_def)
  have "distance_m r1 = distance_m r2 \<and> distance_m r1 = \<lfloor>path_length (pointsRef ?A)\<rfloor>"
    using distance_m_from_accepted_samples [OF p r1 r2] .
  moreover have "path_length (pointsRef ?A) = 0"
    using run_distance [of two_cells cycling 0 ten_seconds_still, symmetric]
    by (simp add: run_still')
  ultimately show ?thesis using p r1 r2 by simp
qed

text \<open>
  Two sessions with the same ten accepted samples: one is ended half a second after the
  tenth tick and saves 10 seconds, the other is ended two ticks later and saves 12.
\<close>

theorem duration_sec_not_from_samples:
  "pointsRef (run two_cells cycling 0 ten_seconds_still)
     = pointsRef (run two_cells cycling 0 (ten_seconds_still @ [Tick 11000, Tick 12000])) \<and>
   map_option duration_sec
     (inserted (end_session ''u'' cycling True 10500 (run two_cells cycling 0 ten_seconds_still)))
     = Some 10 \<and>
   map_option duration_sec
     (inserted (end_session ''u'' cycling True 12500
        (run two_cells cycling 0 (ten_seconds_still @ [Tick 11000, Tick 12000]))))
     = Some 12"
  by (simp add: run_still' run_still_wait end_session_def inserted_def MIN_RIDE_POINTS_def Let_def)

section \<open>The visited cells and the route signature\<close>

lemma set_first_visited [simp]: "set (first_visited xs) = set xs"
  by (induction xs) auto

lemma distinct_first_visited [simp]: "distinct (first_visited xs)"
  by (induction xs) auto

lemma length_first_visited: "length (first_visited xs) = card (set xs)"
  using distinct_card [of "first_visited xs"] by simp

lemma foldl_set_add:
  "foldl (\<lambda>cs x. set_add x cs) cs0 xs = cs0 @ filter (\<lambda>y. y \<notin> set cs0) (first_visited xs)"
proof (induction xs arbitrary: cs0)
  case Nil
  show ?case by simp
next
  case (Cons x xs)
  have unroll: "foldl (\<lambda>cs x. set_add x cs) cs0 (x # xs)
                  = foldl (\<lambda>cs x. set_add x cs) (set_add x cs0) xs"
    by simp
  show ?case
  proof (cases "x \<in> set cs0")
    case True
    then have sa: "set_add x cs0 = cs0" by (simp add: set_add_def)
    have "filter (\<lambda>y. y \<notin> set cs0) (filter (\<lambda>y. y \<noteq> x) (first_visited xs))
            = filter (\<lambda>y. y \<notin> set cs0) (first_visited xs)"
      using True by (auto intro: filter_cong)
    with True show ?thesis unfolding unroll sa Cons.IH by simp
  next
    case False
    then have sa: "set_add x cs0 = cs0 @ [x]" by (simp add: set_add_def)
    have "filter (\<lambda>y. y \<notin> set (cs0 @ [x])) (first_visited xs)
            = filter (\<lambda>y. y \<notin> set cs0) (filter (\<lambda>y. y \<noteq> x) (first_visited xs))"
      by (auto intro: filter_cong)
    with False show ?thesis unfolding unroll sa Cons.IH by simp
  qed
qed

lemma cells_on_position:
  "cells (on_position c a pt s) =
     (if acc pt \<le> 50 then set_add (c (lat pt) (lng pt)) (cells s) else cells s)"
  by (simp add: on_position_def Let_def MIN_ACCURACY_METERS_def)

lemma cells_foldl_step:
  "cells (foldl (step c a) s evs) =
     foldl (\<lambda>cs x. set_add x cs) (cells s) (map (\<lambda>p. c (lat p) (lng p)) (gated_points evs))"
proof (induction evs arbitrary: s)
  case Nil
  show ?case by simp
next
  case (Cons e evs)
  show ?case by (cases e) (simp_all add: Cons.IH cells_on_position)
qed

lemma cells_run:
  "cells (run c a t0 evs) = first_visited (map (\<lambda>p. c (lat p) (lng p)) (gated_points evs))"
  by (simp add: run_def cells_foldl_step foldl_set_add start_def)











section \<open>The scenario of twelve samples\<close>

lemma accepts_all:
  "\<forall>p \<in> set pts. acc p \<le> 50 \<Longrightarrow> within_speed a pts \<Longrightarrow>
     pointsRef (run c a t0 (map Position pts)) = pts"
proof (induction pts rule: rev_induct)
  case Nil
  show ?case by (simp add: run_def start_def)
next
  case (snoc q ps)
  have ws: "within_speed a (ps @ [q]) =
      (within_speed a ps \<and> (ps = [] \<or> \<not> implied_speed (last ps) q > MAX_SPEED_MS a))" for ps
    by (induction ps rule: within_speed.induct) auto
  from snoc have ih: "pointsRef (run c a t0 (map Position ps)) = ps"
    and q: "acc q \<le> 50"
    and link: "ps = [] \<or> \<not> implied_speed (last ps) q > MAX_SPEED_MS a"
    by (simp_all add: ws)
  have "pointsRef (on_position c a q (run c a t0 (map Position ps))) = ps @ [q]"
  proof (cases "ps = []")
    case True
    with ih q show ?thesis
      by (simp add: on_position_def Let_def MIN_ACCURACY_METERS_def)
  next
    case False
    then have "length ps \<ge> 1" by (cases ps) simp_all
    with ih q link False show ?thesis
      by (simp add: on_position_def Let_def MIN_ACCURACY_METERS_def implied_speed_def
          del: of_int_diff)
  qed
  then show ?case by (simp add: run_def)
qed

lemma sample_step:
  "j = Suc i \<Longrightarrow>
     haversine (lat (scenario_sample i)) (lng (scenario_sample i))
               (lat (scenario_sample j)) (lng (scenario_sample j)) = 31855 * pi / 10000"
proof -
  assume j: "j = Suc i"
  have "haversine 0 (real i * 9 / 100000) 0 (real (Suc i) * 9 / 100000)
          = 6371000 * toRad (real (Suc i) * 9 / 100000 - real i * 9 / 100000)"
    by (rule haversine_equator) (simp_all add: field_simps)
  also have "\<dots> = 31855 * pi / 10000"
    by (simp add: toRad_def field_simps)
  finally show ?thesis by (simp add: scenario_sample_def j)
qed

lemma sample_fields:
  "acc (scenario_sample i) = 15" "ts (scenario_sample i) = 2000 * int i"
  by (simp_all add: scenario_sample_def)

lemma scenario_within_speed: "within_speed cycling scenario_samples"
  using pi_less_4
  by (simp add: scenario_samples_def implied_speed_def sample_step sample_fields)

lemma scenario_path_length: "path_length scenario_samples = 350405 * pi / 10000"
  by (simp add: scenario_samples_def sample_step)

lemma gated_points_all:
  "\<forall>p \<in> set pts. acc p \<le> 50 \<Longrightarrow> gated_points (map Position pts) = pts"
  by (induction pts) simp_all

text \<open>
  The scenario of section 8 of the specification on these twelve samples, for any
  indexer: all twelve are accepted, the distance lies between 110 and 110.3 metres, and
  the ride is inserted with \<^verbatim>\<open>distance_m\<close> 110 and with the number of distinct cells of
  the twelve samples as \<^verbatim>\<open>tiles_touched\<close>.
\<close>

lemma scenario_twelve_samples:
  "pointsRef (run c cycling t0 (map Position scenario_samples)) = scenario_samples \<and>
   110 < distance (stats (run c cycling t0 (map Position scenario_samples))) \<and>
   distance (stats (run c cycling t0 (map Position scenario_samples))) < 1103 / 10 \<and>
   (\<exists>r. end_session u cycling True now (run c cycling t0 (map Position scenario_samples)) = Insert r \<and>
        distance_m r = 110 \<and>
        tiles_touched r = card ((\<lambda>p. c (lat p) (lng p)) ` set scenario_samples))"
proof -
  let ?s = "run c cycling t0 (map Position scenario_samples)"
  have a: "\<forall>p \<in> set scenario_samples. acc p \<le> 50"
    by (simp add: scenario_samples_def sample_fields)
  have p: "pointsRef ?s = scenario_samples"
    using a scenario_within_speed by (rule accepts_all)
  have d: "distance (stats ?s) = 350405 * pi / 10000"
    by (simp add: run_distance p scenario_path_length)
  have lo: "110 < distance (stats ?s)" and hi: "distance (stats ?s) < 1103 / 10"
    using pi_bounds by (simp_all add: d)
  then have fl: "\<lfloor>distance (stats ?s)\<rfloor> = 110"
    by linarith
  have n: "length scenario_samples = 12"
    by (simp add: scenario_samples_def)
  have t: "length (cells ?s) = card ((\<lambda>p. c (lat p) (lng p)) ` set scenario_samples)"
    by (simp add: cells_run gated_points_all [OF a] length_first_visited)
  show ?thesis
    using p lo hi fl n t by (simp add: end_session_def Let_def MIN_RIDE_POINTS_def)
qed

section \<open>Saving and discarding\<close>

text \<open>
  C5. \<^verbatim>\<open>end\<close> hands a ride to the insert exactly when it is called with \<^verbatim>\<open>save\<close> true
  and at least \<^verbatim>\<open>MIN_RIDE_POINTS\<close> = 10 samples were accepted; otherwise the session is
  abandoned and nothing is inserted.
\<close>

theorem insert_iff_save_and_enough_points:
  "(\<exists>r. end_session user a save now s = Insert r) \<longleftrightarrow>
     (save \<and> length (pointsRef s) \<ge> 10)"
  by (auto simp add: end_session_def MIN_RIDE_POINTS_def Let_def)

section \<open>Pauses and the reported duration\<close>

lemma ui_ok_append: "ui_ok m (xs @ ys) = (ui_ok m xs \<and> ui_ok (mode_after m xs) ys)"
proof (induction xs arbitrary: m)
  case Nil
  show ?case by simp
next
  case (Cons e xs)
  show ?case by (cases e) (auto simp add: Cons.IH)
qed

lemma last_tick_Some:
  "last_tick evs = Some (pre, t) \<Longrightarrow> \<exists>post. evs = pre @ Tick t # post \<and> last_tick post = None"
proof (induction evs arbitrary: pre)
  case Nil
  then show ?case by simp
next
  case (Cons e evs)
  show ?case
  proof (cases "last_tick evs")
    case None
    with Cons.prems show ?thesis by (cases e) auto
  next
    case (Some pt)
    obtain pre' t' where pt: "pt = (pre', t')" by (cases pt)
    from Cons.prems Some pt have e: "pre = e # pre'" and t: "t' = t" by simp_all
    from Some pt t have "last_tick evs = Some (pre', t)" by simp
    from Cons.IH [OF this]
    obtain post where "evs = pre' @ Tick t # post" and "last_tick post = None" by auto
    with e show ?thesis by auto
  qed
qed

lemma no_tick_duration:
  "last_tick evs = None \<Longrightarrow>
     duration (stats (foldl (step c a) s evs)) = duration (stats s)"
proof (induction evs arbitrary: s)
  case Nil
  show ?case by simp
next
  case (Cons e evs)
  from Cons.prems have n: "last_tick evs = None"
    by (auto split: option.splits)
  from Cons.prems n have "\<forall>t. e \<noteq> Tick t" by auto
  then have "duration (stats (step c a s e)) = duration (stats s)"
    by (cases e) simp_all
  with Cons.IH [OF n, of "step c a s e"] show ?case by simp
qed

lemma paused_bookkeeping:
  assumes "ui_ok m evs"
    and "m = recording \<or> (m = paused \<and> (\<exists>p. pauseRef s = Some p \<and> p \<noteq> 0))"
    and "mode_after m evs = recording"
  shows "pausedRef (foldl (step c a) s evs) = pausedRef s + paused_total (pending s m) evs now \<and>
         startRef (foldl (step c a) s evs) = startRef s"
  using assms
proof (induction evs arbitrary: s m)
  case Nil
  then show ?case by (simp add: pending_def)
next
  case (Cons e evs)
  show ?case
  proof (cases e)
    case (Position pt)
    with Cons.prems have m: "m = recording" and ok: "ui_ok recording evs"
      and fin: "mode_after recording evs = recording" by auto
    from Cons.IH [OF ok _ fin, of "on_position c a pt s"] m Position
    show ?thesis by (simp add: pending_def)
  next
    case (Tick t)
    with Cons.prems have m: "m = recording" and ok: "ui_ok recording evs"
      and fin: "mode_after recording evs = recording" by auto
    from Cons.IH [OF ok _ fin, of "on_tick t s"] m Tick
    show ?thesis by (simp add: pending_def)
  next
    case (Pause t)
    with Cons.prems have m: "m = recording" and t: "t \<noteq> 0" and ok: "ui_ok paused evs"
      and fin: "mode_after paused evs = recording" by auto
    have "paused = recording \<or> (paused = paused \<and> (\<exists>p. pauseRef (pause t s) = Some p \<and> p \<noteq> 0))"
      using t by simp
    from Cons.IH [OF ok this fin] m Pause
    show ?thesis by (simp add: pending_def)
  next
    case (Resume t)
    with Cons.prems have m: "m = paused" and ok: "ui_ok recording evs"
      and fin: "mode_after recording evs = recording" by auto
    from Cons.prems(2) m obtain p where p: "pauseRef s = Some p" "p \<noteq> 0" by auto
    have r: "pausedRef (resume t s) = pausedRef s + (t - p)"
      using p by (simp add: resume_def)
    from Cons.IH [OF ok _ fin, of "resume t s"] m Resume p r
    show ?thesis by (simp add: pending_def)
  qed
qed

lemma duration_run:
  assumes "ui_ok recording evs"
  shows "duration (stats (run c a t0 evs)) =
           (case last_tick evs of
              None \<Rightarrow> 0
            | Some (pre, t) \<Rightarrow> real_of_int (active_time t0 pre t) / 1000)"
proof (cases "last_tick evs")
  case None
  then show ?thesis by (simp add: run_def no_tick_duration start_def)
next
  case (Some pt)
  obtain pre t where pt: "pt = (pre, t)" by (cases pt)
  from last_tick_Some Some pt obtain post
    where evs: "evs = pre @ Tick t # post" and post: "last_tick post = None" by blast
  from assms evs have ok: "ui_ok recording pre" and fin: "mode_after recording pre = recording"
    by (simp_all add: ui_ok_append)
  let ?s = "foldl (step c a) (start t0 init) pre"
  have "pausedRef ?s = pausedRef (start t0 init) + paused_total (pending (start t0 init) recording) pre t
          \<and> startRef ?s = startRef (start t0 init)"
    by (rule paused_bookkeeping [OF ok _ fin]) simp
  then have refs: "pausedRef ?s = paused_total None pre t" "startRef ?s = Some t0"
    by (simp_all add: pending_def start_def)
  have "duration (stats (run c a t0 evs)) = duration (stats (on_tick t ?s))"
    by (simp add: run_def evs no_tick_duration [OF post])
  also have "\<dots> = real_of_int (active_time t0 pre t) / 1000"
    by (simp add: on_tick_def refs ms_def active_time_def)
  finally show ?thesis by (simp add: Some pt)
qed

text \<open>
  C6, as the code has it. However often a session is paused and resumed, the duration
  saved at the end is the wall-clock time from the start to the last timer tick, minus the
  time spent paused before that tick, in whole seconds; it is 0 when no tick has fired.
  Time recorded after the last tick is not counted.
\<close>

theorem duration_sec_is_time_at_last_tick:
  assumes "ui_ok recording evs"
    and "end_session u a True now (run c a t0 evs) = Insert r"
  shows "duration_sec r =
           (case last_tick evs of
              None \<Rightarrow> 0
            | Some (pre, t) \<Rightarrow> active_time t0 pre t div 1000)"
proof -
  have f: "\<lfloor>real_of_int k / 1000\<rfloor> = k div 1000" for k
    using floor_divide_of_int_eq [of k 1000, where ?'a = real] by simp
  show ?thesis
    unfolding end_session_Insert(3) [OF assms(2)] duration_run [OF assms(1)]
    by (simp add: f split: option.split)
qed

lemma run_pause_near_end:
  "run two_cells cycling 0 pause_near_end =
     \<lparr>state = recording, stats = \<lparr>distance = 0, duration = 10, tiles = 1, speed = 0\<rparr>,
      gps = good, cells = [cell_A], startRef = Some 0, pauseRef = Some 10900, pausedRef = 9100,
      pointsRef = [at_A 500, at_A 1500, at_A 2500, at_A 3500, at_A 4500,
                   at_A 5500, at_A 6500, at_A 7500, at_A 8500, at_A 9500]\<rparr>"
  using run_still' by (simp add: run_def pause_near_end_def pause_def resume_def)

lemma ui_ok_pause_near_end: "ui_ok recording pause_near_end"
  by (simp add: pause_near_end_def ten_seconds_still_def)

lemma active_time_pause_near_end: "active_time 0 pause_near_end 20900 = 11800"
  by (simp add: active_time_def pause_near_end_def ten_seconds_still_def)

lemma last_tick_pause_near_end:
  "last_tick pause_near_end = Some (butlast ten_seconds_still, 10000)"
  by (simp add: pause_near_end_def ten_seconds_still_def)

theorem duration_sec_is_time_at_last_tick_witness:
  "ui_ok recording pause_near_end \<and>
   (\<exists>r. end_session ''u'' cycling True 20900 (run two_cells cycling 0 pause_near_end) = Insert r \<and>
        duration_sec r = 10 \<and>
        last_tick pause_near_end = Some (butlast ten_seconds_still, 10000) \<and>
        active_time 0 (butlast ten_seconds_still) 10000 div 1000 = 10)"
proof -
  obtain r where r: "end_session ''u'' cycling True 20900 (run two_cells cycling 0 pause_near_end) = Insert r"
    by (simp add: run_pause_near_end end_session_def MIN_RIDE_POINTS_def Let_def)
  have a: "active_time 0 (butlast ten_seconds_still) 10000 div 1000 = 10"
    by (simp add: active_time_def ten_seconds_still_def)
  have "duration_sec r = 10"
    using duration_sec_is_time_at_last_tick [OF ui_ok_pause_near_end r]
    by (simp add: last_tick_pause_near_end a)
  with r a show ?thesis
    by (simp add: ui_ok_pause_near_end last_tick_pause_near_end)
qed

text \<open>
  A session paused 0.9 seconds after its tenth tick, resumed, and ended 0.9 seconds
  later, before the restarted timer fires: 11.8 seconds were recorded, 10 are saved.
\<close>

theorem duration_off_by_more_than_a_second:
  "ui_ok recording pause_near_end \<and>
   map_option duration_sec
     (inserted (end_session ''u'' cycling True 20900 (run two_cells cycling 0 pause_near_end)))
     = Some 10 \<and>
   active_time 0 pause_near_end 20900 = 11800 \<and>
   \<not> \<bar>real_of_int 10 - real_of_int 11800 / 1000\<bar> \<le> 1"
  by (simp add: ui_ok_pause_near_end active_time_pause_near_end run_pause_near_end
      end_session_def inserted_def MIN_RIDE_POINTS_def Let_def)

section \<open>Unlocking a route\<close>

lemma length_filter_card:
  "length (filter P xs) = card {i. i < length xs \<and> P (xs ! i)}"
  by (rule length_filter_conv_card)

text \<open>
  C1. With the new ride at the head of the owner's rides, the summary page reports the
  route unlocked exactly when at least three of these rides carry the new ride's
  signature and started no more than seven days before \<open>now\<close>. Three rides of one
  signature started on day 0, day 3 and day 6 count 3 and unlock on day 6; on day 8 the
  first is too old and the route is not unlocked.
\<close>

theorem unlocked_iff_three_recent:
  "(unlocked (fst (on_saved new history)) (snd (on_saved new history)) now \<longleftrightarrow>
      3 \<le> card {i. i < length (new # history) \<and>
                   route_signature ((new # history) ! i) = route_signature new \<and>
                   now - started_at ((new # history) ! i) \<le> 7 * 86400000}) \<and>
   recentCount [r\<lparr>started_at := 6 * 86400000\<rparr>, r\<lparr>started_at := 3 * 86400000\<rparr>, r\<lparr>started_at := 0\<rparr>]
      (Some (r\<lparr>started_at := 6 * 86400000\<rparr>)) (6 * 86400000) = 3 \<and>
   unlocked [r\<lparr>started_at := 6 * 86400000\<rparr>, r\<lparr>started_at := 3 * 86400000\<rparr>, r\<lparr>started_at := 0\<rparr>]
      (Some (r\<lparr>started_at := 6 * 86400000\<rparr>)) (6 * 86400000) \<and>
   \<not> unlocked [r\<lparr>started_at := 6 * 86400000\<rparr>, r\<lparr>started_at := 3 * 86400000\<rparr>, r\<lparr>started_at := 0\<rparr>]
      (Some (r\<lparr>started_at := 6 * 86400000\<rparr>)) (8 * 86400000)"
proof -
  have eq: "{i. i < length (new # history) \<and>
                   route_signature ((new # history) ! i) = route_signature new \<and>
                   now - 7 * 86400000 \<le> started_at ((new # history) ! i)}
          = {i. i < length (new # history) \<and>
                   route_signature ((new # history) ! i) = route_signature new \<and>
                   now - started_at ((new # history) ! i) \<le> 7 * 86400000}"
    by auto
  have "unlocked (fst (on_saved new history)) (snd (on_saved new history)) now \<longleftrightarrow>
      3 \<le> card {i. i < length (new # history) \<and>
                   route_signature ((new # history) ! i) = route_signature new \<and>
                   now - started_at ((new # history) ! i) \<le> 7 * 86400000}"
    unfolding unlocked_def recentCount_def on_saved_def fst_conv snd_conv option.case Let_def
      length_filter_card eq ..
  moreover have "recentCount [r\<lparr>started_at := 6 * 86400000\<rparr>, r\<lparr>started_at := 3 * 86400000\<rparr>, r\<lparr>started_at := 0\<rparr>]
      (Some (r\<lparr>started_at := 6 * 86400000\<rparr>)) (6 * 86400000) = 3"
    by (simp add: recentCount_def)
  moreover have "recentCount [r\<lparr>started_at := 6 * 86400000\<rparr>, r\<lparr>started_at := 3 * 86400000\<rparr>, r\<lparr>started_at := 0\<rparr>]
      (Some (r\<lparr>started_at := 6 * 86400000\<rparr>)) (8 * 86400000) = 2"
    by (simp add: recentCount_def)
  ultimately show ?thesis
    by (simp add: unlocked_def)
qed

section \<open>Level progress\<close>

lemma getLevel_top: "10000 \<le> xp \<Longrightarrow> getLevel xp = 11"
  by (simp add: getLevel_def LEVEL_XP_def eval_nat_numeral)

lemmas progress_defs = getXpProgress_def getLevel_def LEVEL_XP_def eval_nat_numeral
  js_index_def js_or_def js_div_def js_times_pos_def Math_min_def Let_def

text \<open>
  Away from the top threshold the progress is a percentage: below it the quotient lies
  between 0 and 1, above it the quotient is \<^verbatim>\<open>Infinity\<close> and \<^verbatim>\<open>Math.min\<close> returns 100.
\<close>

lemma getXpProgress_elsewhere:
  assumes "0 \<le> xp" and "xp \<noteq> 10000"
  shows "case getXpProgress xp of Num r \<Rightarrow> 0 \<le> r \<and> r \<le> 100 | _ \<Rightarrow> False"
proof -
  consider (b0) "0 \<le> xp" "xp < 100"
    | (b1) "100 \<le> xp" "xp < 250"
    | (b2) "250 \<le> xp" "xp < 500"
    | (b3) "500 \<le> xp" "xp < 1000"
    | (b4) "1000 \<le> xp" "xp < 1750"
    | (b5) "1750 \<le> xp" "xp < 2750"
    | (b6) "2750 \<le> xp" "xp < 4000"
    | (b7) "4000 \<le> xp" "xp < 5500"
    | (b8) "5500 \<le> xp" "xp < 7500"
    | (b9) "7500 \<le> xp" "xp < 10000"
    | (top) "10000 < xp"
    using assms by linarith
  then show ?thesis
  proof cases
    case b0
    then show ?thesis by (simp add: progress_defs)
  next
    case b1
    then show ?thesis by (simp add: progress_defs)
  next
    case b2
    then show ?thesis by (simp add: progress_defs)
  next
    case b3
    then show ?thesis by (simp add: progress_defs)
  next
    case b4
    then show ?thesis by (simp add: progress_defs)
  next
    case b5
    then show ?thesis by (simp add: progress_defs)
  next
    case b6
    then show ?thesis by (simp add: progress_defs)
  next
    case b7
    then show ?thesis by (simp add: progress_defs)
  next
    case b8
    then show ?thesis by (simp add: progress_defs)
  next
    case b9
    then show ?thesis by (simp add: progress_defs)
  next
    case top
    then show ?thesis by (simp add: progress_defs)
  qed
qed

text \<open>
  C10. \<^verbatim>\<open>getXpProgress\<close> is meant to return a percentage between 0 and 100. At
  \<^verbatim>\<open>xp = 10000\<close>, the highest threshold, the level is 11, both \<^verbatim>\<open>curr\<close> and \<^verbatim>\<open>next\<close>
  are 10000, the quotient is \<^verbatim>\<open>0 / 0\<close> and the function returns \<^verbatim>\<open>NaN\<close>, which is not a
  number between 0 and 100.
\<close>

theorem getXpProgress_top_threshold_NaN: "getXpProgress 10000 = NaN"
  by (simp add: getXpProgress_def getLevel_top js_index_def js_or_def js_div_def
      js_times_pos_def Math_min_def LEVEL_XP_def)

end
